theory Spec2Isabelle
  imports Main
begin

section \<open>Python strings\<close>

text \<open>
  A Python \<open>str\<close> is a sequence of Unicode code points, and \<open>len\<close> counts code
  points (the dialogue text of this repository is Russian). A code point is a natural
  number, a string a list of them.
\<close>

type_synonym pychar = nat
type_synonym pystr = "pychar list"

text \<open>
  \<open>str.isspace\<close> on one code point: the code points whose bidirectional class is WS, B
  or S, or whose general category is Zs. This is the table \<open>str.strip()\<close> uses.
\<close>

definition isspace :: "pychar \<Rightarrow> bool" where
  "isspace c =
     ((9 \<le> c \<and> c \<le> 13) \<or> (28 \<le> c \<and> c \<le> 32) \<or> c = 133 \<or> c = 160 \<or> c = 5760
      \<or> (8192 \<le> c \<and> c \<le> 8202) \<or> c = 8232 \<or> c = 8233 \<or> c = 8239 \<or> c = 8287
      \<or> c = 12288)"

definition lstrip :: "pystr \<Rightarrow> pystr" where
  "lstrip s = dropWhile isspace s"

definition rstrip :: "pystr \<Rightarrow> pystr" where
  "rstrip s = rev (dropWhile isspace (rev s))"

definition strip :: "pystr \<Rightarrow> pystr" where
  "strip s = rstrip (lstrip s)"

text \<open>
  \<open>xs[start:end]\<close> with integer bounds: a negative bound counts from the end, and both
  bounds are clamped to the sequence; an empty range gives the empty sequence.
\<close>

definition slice_bound :: "nat \<Rightarrow> int \<Rightarrow> nat" where
  "slice_bound n i = (if i < 0 then nat (max (i + int n) 0) else min (nat i) n)"

definition py_slice :: "'a list \<Rightarrow> int \<Rightarrow> int \<Rightarrow> 'a list" where
  "py_slice xs start end =
     (let s = slice_bound (length xs) start; e = slice_bound (length xs) end
      in if s < e then take (e - s) (drop s xs) else [])"

text \<open>An ASCII literal of the source as code points.\<close>

definition py :: "string \<Rightarrow> pystr" where
  "py s = map of_char s"

text \<open>\<open>sep.join(parts)\<close>.\<close>

fun join :: "pystr \<Rightarrow> pystr list \<Rightarrow> pystr" where
  "join sep [] = []"
| "join sep [x] = x"
| "join sep (x # y # ys) = x @ sep @ join sep (y # ys)"

section \<open>The chunker: \<open>ChromaRAG._chunk_text\<close>\<close>

text \<open>
  The \<open>while\<close> loop of \<open>_chunk_text\<close>, with the loop variables \<open>start\<close> and
  \<open>chunks\<close> as arguments. The loop may run forever, so it is a partial function: the
  value \<open>None\<close> is a run that never returns.
\<close>

partial_function (option) chunk_loop ::
  "pystr \<Rightarrow> int \<Rightarrow> int \<Rightarrow> int \<Rightarrow> pystr list \<Rightarrow> pystr list option" where
  "chunk_loop text chunk_size chunk_overlap start chunks =
     (if start < int (length text) then
        (if start + chunk_size - chunk_overlap \<ge> int (length text)
         then Some (chunks @ [py_slice text start (start + chunk_size)])
         else chunk_loop text chunk_size chunk_overlap
                (start + chunk_size - chunk_overlap)
                (chunks @ [py_slice text start (start + chunk_size)]))
      else Some chunks)"

declare chunk_loop.simps [code]

definition chunk_text :: "pystr \<Rightarrow> int \<Rightarrow> int \<Rightarrow> pystr list option" where
  "chunk_text text chunk_size chunk_overlap =
     (if strip text = [] then Some []
      else chunk_loop (strip text) chunk_size chunk_overlap 0 [])"

text \<open>
  Joining the chunks back: the first chunk whole, every later chunk without its
  leading \<open>overlap\<close> characters.
\<close>

fun unoverlap :: "nat \<Rightarrow> pystr list \<Rightarrow> pystr" where
  "unoverlap ov [] = []"
| "unoverlap ov (c # cs) = c @ concat (map (drop ov) cs)"

text \<open>
  The windows of a sequence, for the proofs: from \<open>start\<close>, one window of \<open>width\<close>
  elements every \<open>step\<close> elements, as long as the start lies inside the sequence.
\<close>

function windows :: "'a list \<Rightarrow> nat \<Rightarrow> nat \<Rightarrow> nat \<Rightarrow> 'a list list" where
  "windows xs width step start =
     (if start < length xs \<and> 0 < step
      then take width (drop start xs) # windows xs width step (start + step)
      else [])"
  by pat_completeness auto
termination
  by (relation "measure (\<lambda>(xs, width, step, start). length xs - start)") auto

declare windows.simps [simp del]

section \<open>The vector store adapter\<close>

text \<open>
  Exceptions, as values. \<open>StoreError\<close> is any exception the vector store raises
  (rejected arguments, store unreachable), \<open>LLMError\<close> any exception of the LLM
  collaborator, \<open>HistoryError\<close> any exception of the chat history reader. The number
  tells the exceptions of one kind apart.
\<close>

datatype error = KeyError | StoreError nat | LLMError nat | HistoryError nat

text \<open>
  A stored item: its id, its document and its metadata. The metadata of a dialogue
  memory item is the dictionary \<open>add_item\<close> writes, with exactly the keys \<open>role\<close>,
  \<open>history_uid\<close>, \<open>conf_uid\<close> and \<open>timestamp\<close>.
\<close>

record metadata =
  m_role :: pystr
  m_history_uid :: pystr
  m_conf_uid :: pystr
  m_timestamp :: int

record 'm item =
  item_id :: pystr
  doc :: pystr
  meta :: 'm

type_synonym 'm collection = "'m item list"

text \<open>
  The metadata filters the memory store builds: equality on a string key,
  \<open>$in\<close> and \<open>$nin\<close> on a string key, \<open>$lt\<close> on the timestamp, and \<open>$and\<close>.
\<close>

datatype field = Role | HistoryUid | ConfUid

datatype where_clause =
    Eq field pystr
  | In field "pystr list"
  | Nin field "pystr set"
  | TimestampLt int
  | And "where_clause list"

fun field_of :: "field \<Rightarrow> metadata \<Rightarrow> pystr" where
  "field_of Role m = m_role m"
| "field_of HistoryUid m = m_history_uid m"
| "field_of ConfUid m = m_conf_uid m"

fun matches :: "where_clause \<Rightarrow> metadata \<Rightarrow> bool" where
  "matches (Eq f v) m = (field_of f m = v)"
| "matches (In f vs) m = (field_of f m \<in> set vs)"
| "matches (Nin f vs) m = (field_of f m \<notin> vs)"
| "matches (TimestampLt c) m = (m_timestamp m < c)"
| "matches (And ws) m = list_all (\<lambda>w. matches w m) ws"

text \<open>
  Modelled from the spec: the vector store (ChromaDB) is an external collaborator
  and not part of the sources; section 6 of the specification gives its interface
  (\<open>add\<close>, \<open>query\<close>, \<open>get\<close>, \<open>delete\<close>, \<open>count\<close>). A collection is the list of its items
  in the order \<open>get\<close> enumerates them; \<open>add\<close> puts the new item last. \<open>query\<close> ranks
  the items that pass the filter by similarity to the query text and returns the
  first \<open>k\<close>; the ranking comes from the embedding model and is the parameter
  \<open>rank\<close>. The store rejects a request for \<open>k \<le> 0\<close> results with an exception
  (ChromaDB checks that the number of results asked for is positive).
\<close>

definition collection_count :: "'m collection \<Rightarrow> int" where
  "collection_count c = int (length c)"

definition collection_add :: "'m item \<Rightarrow> 'm collection \<Rightarrow> 'm collection" where
  "collection_add it c = c @ [it]"

definition collection_get :: "('m \<Rightarrow> bool) \<Rightarrow> 'm collection \<Rightarrow> 'm item list" where
  "collection_get p c = filter (\<lambda>it. p (meta it)) c"

definition collection_delete :: "pystr list \<Rightarrow> 'm collection \<Rightarrow> 'm collection" where
  "collection_delete ids c = filter (\<lambda>it. item_id it \<notin> set ids) c"

definition collection_query ::
  "(pystr \<Rightarrow> 'm item list \<Rightarrow> 'm item list) \<Rightarrow> pystr \<Rightarrow> int \<Rightarrow> ('m \<Rightarrow> bool) option \<Rightarrow>
   'm collection \<Rightarrow> error + 'm item list" where
  "collection_query rank query_text k wh c =
     (if k \<le> 0 then Inl (StoreError 0)
      else Inr (take (nat k)
             (rank query_text
                (case wh of None \<Rightarrow> c | Some p \<Rightarrow> filter (\<lambda>it. p (meta it)) c))))"

section \<open>The knowledge collection: \<open>ChromaRAG.query\<close>\<close>

definition ChromaRAG_query ::
  "(pystr \<Rightarrow> 'm item list \<Rightarrow> 'm item list) \<Rightarrow> pystr \<Rightarrow> int \<Rightarrow> ('m \<Rightarrow> bool) option \<Rightarrow>
   'm collection \<Rightarrow> error + pystr list" where
  "ChromaRAG_query rank query_text n_results wh c =
     (if collection_count c = 0 then Inr []
      else if min n_results (collection_count c) \<le> 0 then Inr []
      else (case collection_query rank query_text (min n_results (collection_count c)) wh c of
              Inl e \<Rightarrow> Inl e
            | Inr items \<Rightarrow> Inr (map doc items)))"

section \<open>The memory store: \<open>DialogueMemory\<close>\<close>

definition ROLE_USER :: pystr where "ROLE_USER = py ''user''"
definition ROLE_ASSISTANT :: pystr where "ROLE_ASSISTANT = py ''assistant''"
definition ROLE_FACT :: pystr where "ROLE_FACT = py ''fact''"
definition ROLE_SUMMARY :: pystr where "ROLE_SUMMARY = py ''summary''"
definition ROLE_USER_PROFILE :: pystr where "ROLE_USER_PROFILE = py ''user_profile''"

definition PERSISTENT_ROLES :: "pystr set" where
  "PERSISTENT_ROLES = {ROLE_FACT, ROLE_USER_PROFILE}"

text \<open>
  \<open>add_item\<close>. The two readings of the environment are arguments: \<open>doc_id\<close> is
  \<open>str(uuid.uuid4())\<close> and \<open>now\<close> is \<open>int(datetime.utcnow().timestamp())\<close>, the clock in
  whole seconds. The result is the returned id and the collection after the call.
\<close>

definition add_item ::
  "pystr \<Rightarrow> int \<Rightarrow> pystr \<Rightarrow> pystr \<Rightarrow> pystr \<Rightarrow> pystr \<Rightarrow> metadata collection \<Rightarrow>
   pystr \<times> metadata collection" where
  "add_item doc_id now role content history_uid conf_uid c =
     (if content = [] \<or> strip content = [] then ([], c)
      else (doc_id,
            collection_add
              \<lparr>item_id = doc_id, doc = strip content,
               meta = \<lparr>m_role = role, m_history_uid = history_uid,
                        m_conf_uid = conf_uid, m_timestamp = now\<rparr>\<rparr> c))"

text \<open>
  \<open>if history_uid:\<close> on an optional string: true for a string that is given and
  not empty.
\<close>

fun truthy :: "'a list option \<Rightarrow> bool" where
  "truthy None = False"
| "truthy (Some v) = (v \<noteq> [])"

definition query_where_parts ::
  "pystr option \<Rightarrow> pystr option \<Rightarrow> pystr list option \<Rightarrow> where_clause list" where
  "query_where_parts history_uid conf_uid roles =
     (if truthy history_uid then [Eq HistoryUid (the history_uid)] else [])
     @ (if truthy conf_uid then [Eq ConfUid (the conf_uid)] else [])
     @ (if truthy roles then [In Role (the roles)] else [])"

definition query_where_filter :: "where_clause list \<Rightarrow> where_clause option" where
  "query_where_filter where_parts =
     (if length where_parts = 1 then Some (hd where_parts)
      else if length where_parts > 1 then Some (And where_parts)
      else None)"

definition query ::
  "(pystr \<Rightarrow> metadata item list \<Rightarrow> metadata item list) \<Rightarrow> pystr \<Rightarrow> int \<Rightarrow>
   pystr option \<Rightarrow> pystr option \<Rightarrow> pystr list option \<Rightarrow> metadata collection \<Rightarrow>
   error + (pystr \<times> pystr \<times> metadata) list" where
  "query rank query_text n_results history_uid conf_uid roles c =
     (if collection_count c = 0 then Inr []
      else
        (case collection_query rank query_text (min n_results (collection_count c))
                (map_option matches
                   (query_where_filter (query_where_parts history_uid conf_uid roles))) c of
           Inl e \<Rightarrow> Inl e
         | Inr items \<Rightarrow>
             Inr (map (\<lambda>it. (doc it, item_id it, meta it))
                    (filter (\<lambda>it. doc it \<noteq> []) items))))"

text \<open>
  \<open>paired.sort(key=timestamp, reverse=True)\<close>: descending by timestamp, and stable (items
  with equal timestamps keep their order).
\<close>

definition sort_newest_first :: "metadata item list \<Rightarrow> metadata item list" where
  "sort_newest_first xs = sort_key (\<lambda>it. - m_timestamp (meta it)) xs"

definition scope_where :: "pystr \<Rightarrow> pystr \<Rightarrow> pystr \<Rightarrow> where_clause" where
  "scope_where role history_uid conf_uid =
     And ([Eq Role role, Eq HistoryUid history_uid]
          @ (if conf_uid \<noteq> [] then [Eq ConfUid conf_uid] else []))"

definition get_all_facts :: "pystr \<Rightarrow> pystr \<Rightarrow> int \<Rightarrow> metadata collection \<Rightarrow> pystr list" where
  "get_all_facts history_uid conf_uid limit c =
     (let results = collection_get (matches (scope_where ROLE_FACT history_uid conf_uid)) c
      in if results = [] then []
         else filter (\<lambda>d. d \<noteq> [])
                (map (\<lambda>p. strip (doc p)) (py_slice (sort_newest_first results) 0 limit)))"

definition get_user_profile :: "pystr \<Rightarrow> pystr \<Rightarrow> metadata collection \<Rightarrow> pystr" where
  "get_user_profile history_uid conf_uid c =
     (case sort_newest_first
             (collection_get (matches (scope_where ROLE_USER_PROFILE history_uid conf_uid)) c) of
        [] \<Rightarrow> []
      | p # _ \<Rightarrow> strip (doc p))"

definition set_user_profile ::
  "pystr \<Rightarrow> int \<Rightarrow> pystr \<Rightarrow> pystr \<Rightarrow> pystr \<Rightarrow> metadata collection \<Rightarrow> metadata collection" where
  "set_user_profile doc_id now history_uid conf_uid content c =
     (if content = [] \<or> strip content = [] then c
      else snd (add_item doc_id now ROLE_USER_PROFILE (strip content) history_uid conf_uid c))"

definition add_to_user_profile ::
  "pystr \<Rightarrow> int \<Rightarrow> pystr \<Rightarrow> pystr \<Rightarrow> pystr \<Rightarrow> metadata collection \<Rightarrow> metadata collection" where
  "add_to_user_profile doc_id now history_uid conf_uid new_fact c =
     (if new_fact = [] \<or> strip new_fact = [] then c
      else
        (let current = get_user_profile history_uid conf_uid c;
             merged = (if current \<noteq> [] then current @ py [CHR 0x0A] @ py ''- '' @ strip new_fact
                       else py ''- '' @ strip new_fact)
         in snd (add_item doc_id now ROLE_USER_PROFILE merged history_uid conf_uid c)))"

text \<open>
  \<open>delete_older_than_days\<close>. \<open>now\<close> is the clock in whole seconds, as in \<open>add_item\<close>; the
  cutoff \<open>int((utcnow() - timedelta(days=days)).timestamp())\<close> is then \<open>now\<close> less
  \<open>days\<close> days of 86400 seconds. The range of \<open>datetime\<close> (years 1 to 9999) is not
  modelled. The result is the returned count and the collection after the call.
\<close>

definition delete_older_than_days ::
  "int \<Rightarrow> int \<Rightarrow> pystr option \<Rightarrow> pystr set option \<Rightarrow> metadata collection \<Rightarrow>
   int \<times> metadata collection" where
  "delete_older_than_days now days history_uid exclude_roles c =
     (let exclude = (case exclude_roles of
                       None \<Rightarrow> PERSISTENT_ROLES
                     | Some s \<Rightarrow> if s = {} then PERSISTENT_ROLES else s);
          cutoff = now - days * 86400;
          where_parts = [TimestampLt cutoff]
             @ (if truthy history_uid then [Eq HistoryUid (the history_uid)] else [])
             @ [Nin Role exclude];
          ids = map item_id (collection_get (matches (And where_parts)) c)
      in if ids = [] then (0, c)
         else (int (length ids), collection_delete ids c))"

definition count :: "metadata collection \<Rightarrow> int" where
  "count c = collection_count c"

section \<open>The consolidation scheduler: \<open>process_memory_background\<close>\<close>

text \<open>
  The scheduler works on collaborators it is handed: the memory store, the chat
  history reader \<open>get_history\<close> and the LLM \<open>llm_prompt_fn\<close>. Each of them may change
  the world (of any type \<open>'w\<close>) and may raise, so a call is an action: from the world
  before to an exception or a value, and the world after.
\<close>

type_synonym ('w, 'a) action = "'w \<Rightarrow> (error + 'a) \<times> 'w"

definition ret :: "'a \<Rightarrow> ('w, 'a) action" where
  "ret a w = (Inr a, w)"

definition raise :: "error \<Rightarrow> ('w, 'a) action" where
  "raise e w = (Inl e, w)"

text \<open>Sequencing: an exception of the first action skips the rest.\<close>

definition andthen :: "('w, 'a) action \<Rightarrow> ('a \<Rightarrow> ('w, 'b) action) \<Rightarrow> ('w, 'b) action" where
  "andthen m f w = (case m w of (Inl e, w') \<Rightarrow> (Inl e, w') | (Inr a, w') \<Rightarrow> f a w')"

text \<open>
  \<open>try: body except Exception as e: logger.warning(...)\<close>: an exception of the body
  ends the body, and the statement completes normally in the world the body left.
\<close>

definition try_except :: "('w, unit) action \<Rightarrow> ('w, unit) action" where
  "try_except body w = (case body w of (Inl e, w') \<Rightarrow> (Inr (), w') | (Inr u, w') \<Rightarrow> (Inr u, w'))"

fun for_each :: "('a \<Rightarrow> ('w, unit) action) \<Rightarrow> 'a list \<Rightarrow> ('w, unit) action" where
  "for_each f [] = ret ()"
| "for_each f (x # xs) = andthen (f x) (\<lambda>_. for_each f xs)"

text \<open>The three operations of \<open>DialogueMemory\<close> the scheduler calls.\<close>

record 'w dialogue_memory =
  dm_add_item :: "pystr \<Rightarrow> pystr \<Rightarrow> pystr \<Rightarrow> pystr \<Rightarrow> ('w, pystr) action"
  dm_get_all_facts :: "pystr \<Rightarrow> pystr \<Rightarrow> ('w, pystr list) action"
  dm_set_user_profile :: "pystr \<Rightarrow> pystr \<Rightarrow> pystr \<Rightarrow> ('w, unit) action"

text \<open>A chat message is a dictionary from strings to strings.\<close>

type_synonym message = "(pystr \<times> pystr) list"

text \<open>The system prompts are fixed texts; only which one is passed matters here.\<close>

datatype system_prompt =
  FACT_EXTRACTION_SYSTEM | SUMMARY_SYSTEM | PROFILE_UPDATE_SYSTEM | PROFILE_MERGE_SYSTEM

definition FACT_EXTRACT_EVERY :: int where "FACT_EXTRACT_EVERY = 3"
definition SUMMARY_EVERY :: int where "SUMMARY_EVERY = 6"

text \<open>The two cadence tests of the scheduler. Python's \<open>%\<close> on integers is \<open>mod\<close>.\<close>

definition fact_extraction_due :: "int \<Rightarrow> bool" where
  "fact_extraction_due message_count =
     (message_count \<ge> FACT_EXTRACT_EVERY
      \<and> (message_count - FACT_EXTRACT_EVERY) mod FACT_EXTRACT_EVERY = 0)"

definition summary_due :: "int \<Rightarrow> bool" where
  "summary_due message_count =
     (message_count \<ge> SUMMARY_EVERY
      \<and> (message_count - SUMMARY_EVERY) mod SUMMARY_EVERY = 0)"

text \<open>
  One line of the dialogue text: \<open>m['role']\<close> raises \<open>KeyError\<close> for a message without
  that key, \<open>m.get('content', '')\<close> does not.
\<close>

definition dialog_line :: "message \<Rightarrow> error + pystr" where
  "dialog_line m =
     (case map_of m (py ''role'') of
        None \<Rightarrow> Inl KeyError
      | Some r \<Rightarrow>
          Inr ((if r = py ''human''
                then [1055, 1086, 1083, 1100, 1079, 1086, 1074, 1072, 1090, 1077, 1083, 1100]
                else [1040, 1089, 1089, 1080, 1089, 1090, 1077, 1085, 1090])
               @ py '': ''
               @ (case map_of m (py ''content'') of None \<Rightarrow> [] | Some c \<Rightarrow> c)))"

fun dialog_lines :: "message list \<Rightarrow> error + pystr list" where
  "dialog_lines [] = Inr []"
| "dialog_lines (m # ms) =
     (case dialog_line m of
        Inl e \<Rightarrow> Inl e
      | Inr l \<Rightarrow> (case dialog_lines ms of Inl e \<Rightarrow> Inl e | Inr ls \<Rightarrow> Inr (l # ls)))"

text \<open>\<open>messages_raw[-last_n:]\<close> with \<open>last_n = min(10, len(messages_raw))\<close>, at least 1.\<close>

definition recent_messages :: "message list \<Rightarrow> message list" where
  "recent_messages messages_raw =
     drop (length messages_raw - min 10 (length messages_raw)) messages_raw"

text \<open>\<open>re.split\<close> on the newline, the bullet U+2022 and the hyphen: the pieces between the
  delimiters, empty ones kept.\<close>

fun split_on :: "(pychar \<Rightarrow> bool) \<Rightarrow> pystr \<Rightarrow> pystr list" where
  "split_on p [] = [[]]"
| "split_on p (c # cs) =
     (if p c then [] # split_on p cs
      else (case split_on p cs of [] \<Rightarrow> [[c]] | w # ws \<Rightarrow> (c # w) # ws))"

definition fact_delimiter :: "pychar \<Rightarrow> bool" where
  "fact_delimiter c = (c = 10 \<or> c = 8226 \<or> c = 45)"

definition parse_facts :: "pystr \<Rightarrow> pystr list" where
  "parse_facts facts_text =
     map strip (filter (\<lambda>f. strip f \<noteq> [] \<and> length (strip f) > 3)
                  (split_on fact_delimiter facts_text))"

text \<open>The single user message handed to the LLM.\<close>

definition user_message :: "pystr \<Rightarrow> message list" where
  "user_message content = [[(py ''role'', py ''user''), (py ''content'', content)]]"

definition dialog_prompt :: "pystr \<Rightarrow> pystr" where
  "dialog_prompt dialog_text = [1044, 1080, 1072, 1083, 1086, 1075, 58, 10] @ dialog_text"

definition merge_prompt :: "pystr list \<Rightarrow> pystr" where
  "merge_prompt all_facts =
     [1060, 1072, 1082, 1090, 1099, 32, 40, 1089, 1074, 1077, 1088, 1093, 1091, 32, 8212, 32,
      1085, 1086, 1074, 1077, 1077, 41, 58, 10]
     @ join (py [CHR 0x0A]) (map (\<lambda>f. py ''- '' @ f) (take 30 all_facts))"

text \<open>The inner \<open>try\<close> of the fact extraction: the profile merge.\<close>

definition profile_merge ::
  "'w dialogue_memory \<Rightarrow> (message list \<Rightarrow> system_prompt \<Rightarrow> ('w, pystr) action) \<Rightarrow>
   pystr \<Rightarrow> pystr \<Rightarrow> pystr list \<Rightarrow> ('w, unit) action" where
  "profile_merge dm llm_prompt_fn conf_uid history_uid all_facts =
     try_except
       (andthen (llm_prompt_fn (user_message (merge_prompt all_facts)) PROFILE_MERGE_SYSTEM)
          (\<lambda>merged_profile.
             if merged_profile \<noteq> [] \<and> strip merged_profile \<noteq> []
             then dm_set_user_profile dm history_uid conf_uid merged_profile
             else ret ()))"

text \<open>The \<open>try\<close> of the fact extraction.\<close>

definition fact_extraction ::
  "'w dialogue_memory \<Rightarrow> (message list \<Rightarrow> system_prompt \<Rightarrow> ('w, pystr) action) \<Rightarrow>
   pystr \<Rightarrow> pystr \<Rightarrow> pystr \<Rightarrow> ('w, unit) action" where
  "fact_extraction dm llm_prompt_fn conf_uid history_uid dialog_text =
     try_except
       (andthen (llm_prompt_fn (user_message (dialog_prompt dialog_text)) FACT_EXTRACTION_SYSTEM)
          (\<lambda>facts_text.
             if facts_text \<noteq> [] \<and> strip facts_text \<noteq> []
             then
               andthen
                 (for_each
                    (\<lambda>fact. andthen (dm_add_item dm (py ''fact'') fact history_uid conf_uid)
                               (\<lambda>_. ret ()))
                    (take 10 (parse_facts facts_text)))
                 (\<lambda>_. andthen (dm_get_all_facts dm history_uid conf_uid)
                    (\<lambda>all_facts.
                       if all_facts \<noteq> []
                       then profile_merge dm llm_prompt_fn conf_uid history_uid all_facts
                       else ret ()))
             else ret ()))"

text \<open>The \<open>try\<close> of the summarization.\<close>

definition summarization ::
  "'w dialogue_memory \<Rightarrow> (message list \<Rightarrow> system_prompt \<Rightarrow> ('w, pystr) action) \<Rightarrow>
   pystr \<Rightarrow> pystr \<Rightarrow> pystr \<Rightarrow> ('w, unit) action" where
  "summarization dm llm_prompt_fn conf_uid history_uid dialog_text =
     try_except
       (andthen (llm_prompt_fn (user_message (dialog_prompt dialog_text)) SUMMARY_SYSTEM)
          (\<lambda>summary_text.
             if summary_text \<noteq> [] \<and> strip summary_text \<noteq> []
             then andthen
                    (dm_add_item dm (py ''summary'') (strip summary_text) history_uid conf_uid)
                    (\<lambda>_. ret ())
             else ret ()))"

text \<open>
  \<open>process_memory_background\<close>. \<open>dialogue_memory\<close> is \<open>None\<close> when the memory is
  disabled. The result \<open>Inl e\<close> is the exception \<open>e\<close> reaching the caller.
\<close>

definition process_memory_background ::
  "pystr \<Rightarrow> pystr \<Rightarrow> 'w dialogue_memory option \<Rightarrow>
   (pystr \<Rightarrow> pystr \<Rightarrow> ('w, message list) action) \<Rightarrow>
   (message list \<Rightarrow> system_prompt \<Rightarrow> ('w, pystr) action) \<Rightarrow> int \<Rightarrow> ('w, unit) action" where
  "process_memory_background conf_uid history_uid dialogue_memory get_history llm_prompt_fn
     message_count =
     (case dialogue_memory of
        None \<Rightarrow> ret ()
      | Some dm \<Rightarrow>
          if history_uid = [] \<or> conf_uid = [] then ret ()
          else
            try_except
              (andthen (get_history conf_uid history_uid)
                 (\<lambda>messages_raw.
                    if messages_raw = [] then ret ()
                    else
                      (case dialog_lines (recent_messages messages_raw) of
                         Inl e \<Rightarrow> raise e
                       | Inr ls \<Rightarrow>
                           (let dialog_text = join (py [CHR 0x0A]) ls
                            in if strip dialog_text = [] then ret ()
                               else
                                 andthen
                                   (if fact_extraction_due message_count
                                    then fact_extraction dm llm_prompt_fn conf_uid history_uid
                                           dialog_text
                                    else ret ())
                                   (\<lambda>_. if summary_due message_count
                                         then summarization dm llm_prompt_fn conf_uid
                                                history_uid dialog_text
                                         else ret ()))))))"

text \<open>
  An LLM that records the system prompt of every call and answers as the function
  \<open>reply\<close> says, and a memory store that keeps nothing and reports the facts \<open>facts\<close>:
  the world is the list of the prompts passed so far, which shows the stages the
  scheduler ran.
\<close>

definition recording_llm ::
  "(message list \<Rightarrow> system_prompt \<Rightarrow> pystr) \<Rightarrow> message list \<Rightarrow> system_prompt \<Rightarrow>
   (system_prompt list, pystr) action" where
  "recording_llm reply messages system w = (Inr (reply messages system), w @ [system])"

definition stub_memory :: "pystr list \<Rightarrow> system_prompt list dialogue_memory" where
  "stub_memory facts =
     \<lparr>dm_add_item = (\<lambda>role content history_uid conf_uid. ret []),
      dm_get_all_facts = (\<lambda>history_uid conf_uid. ret facts),
      dm_set_user_profile = (\<lambda>history_uid conf_uid content. ret ())\<rparr>"

definition stages_run ::
  "(message list \<Rightarrow> system_prompt \<Rightarrow> pystr) \<Rightarrow> pystr list \<Rightarrow> message list \<Rightarrow> int \<Rightarrow>
   system_prompt list" where
  "stages_run reply facts messages_raw message_count =
     snd (process_memory_background (py ''c'') (py ''h'') (Some (stub_memory facts))
            (\<lambda>conf_uid history_uid. ret messages_raw) (recording_llm reply) message_count [])"

text \<open>The invariant of the stored contents: not empty, and equal to their own trimming.\<close>

definition stored_trimmed :: "metadata collection \<Rightarrow> bool" where
  "stored_trimmed c = list_all (\<lambda>it. doc it \<noteq> [] \<and> strip (doc it) = doc it) c"

section \<open>Predicates and sample data of the statements\<close>

text \<open>
  What the retention sweep is to delete, in the words of the specification: the items
  older than the cutoff whose role is not persistent, of the given history when one
  is given.
\<close>

definition expired :: "int \<Rightarrow> int \<Rightarrow> pystr option \<Rightarrow> metadata item \<Rightarrow> bool" where
  "expired now days history_uid it =
     (m_timestamp (meta it) < now - days * 86400
      \<and> m_role (meta it) \<notin> {ROLE_FACT, ROLE_USER_PROFILE}
      \<and> (if truthy history_uid then m_history_uid (meta it) = the history_uid else True))"

text \<open>A small collection: one history, one character, four roles.\<close>

definition mk_item :: "string \<Rightarrow> string \<Rightarrow> pystr \<Rightarrow> int \<Rightarrow> metadata item" where
  "mk_item i d r ts = \<lparr>item_id = py i, doc = py d,
      meta = \<lparr>m_role = r, m_history_uid = py ''h'', m_conf_uid = py ''c'', m_timestamp = ts\<rparr>\<rparr>"

definition sample_store :: "metadata collection" where
  "sample_store =
     [mk_item ''i1'' ''hello'' ROLE_USER 10,
      mk_item ''i2'' ''Name: X'' ROLE_FACT 10,
      mk_item ''i3'' ''profile'' ROLE_USER_PROFILE 10,
      mk_item ''i4'' ''later'' ROLE_SUMMARY 2000]"



definition one_message :: "message list" where
  "one_message = [[(py ''role'', py ''human''), (py ''content'', py ''hi'')]]"


section \<open>The chunker: termination\<close>

lemma chunk_loop_terminates:
  "ov < cs \<Longrightarrow> \<exists>r. chunk_loop t cs ov start acc = Some r"
proof (induction "nat (int (length t) - start)" arbitrary: start acc rule: less_induct)
  case less
  show ?case
  proof (cases "start < int (length t)")
    case False
    then show ?thesis by (subst chunk_loop.simps) simp
  next
    case True
    show ?thesis
    proof (cases "start + cs - ov \<ge> int (length t)")
      case True
      with \<open>start < int (length t)\<close> show ?thesis by (subst chunk_loop.simps) simp
    next
      case False
      have "nat (int (length t) - (start + cs - ov)) < nat (int (length t) - start)"
        using less.prems True by linarith
      from less.hyps[OF this less.prems]
      obtain r where
        "chunk_loop t cs ov (start + cs - ov) (acc @ [py_slice t start (start + cs)]) = Some r"
        by blast
      with True False show ?thesis by (subst chunk_loop.simps) simp
    qed
  qed
qed

text \<open>
  With \<open>chunk_size \<le> chunk_overlap\<close> the start never moves forward: from a start at or
  before 0 in a non-empty text, no run of the loop returns.
\<close>

lemma chunk_loop_stuck:
  assumes "chunk_loop t cs ov start acc = Some r"
  shows "\<not> (cs \<le> ov \<and> start \<le> 0 \<and> t \<noteq> [])"
proof (rule chunk_loop.raw_induct
    [where P = "\<lambda>t cs ov start acc r. \<not> (cs \<le> ov \<and> start \<le> 0 \<and> t \<noteq> [])", OF _ assms])
  fix f :: "pystr \<Rightarrow> int \<Rightarrow> int \<Rightarrow> int \<Rightarrow> pystr list \<Rightarrow> pystr list option"
    and t cs ov start acc r
  assume ih: "\<And>t cs ov start acc r. f t cs ov start acc = Some r \<Longrightarrow>
          \<not> (cs \<le> ov \<and> start \<le> 0 \<and> t \<noteq> [])"
    and body: "(if start < int (length t) then
        (if start + cs - ov \<ge> int (length t)
         then Some (acc @ [py_slice t start (start + cs)])
         else f t cs ov (start + cs - ov) (acc @ [py_slice t start (start + cs)]))
      else Some acc) = Some r"
  show "\<not> (cs \<le> ov \<and> start \<le> 0 \<and> t \<noteq> [])"
  proof
    assume a: "cs \<le> ov \<and> start \<le> 0 \<and> t \<noteq> []"
    then have lt: "start < int (length t)" by (cases t) auto
    from a have nge: "\<not> start + cs - ov \<ge> int (length t)" by (cases t) auto
    from body lt nge
    have "f t cs ov (start + cs - ov) (acc @ [py_slice t start (start + cs)]) = Some r"
      by simp
    from ih[OF this] a show False by auto
  qed
qed

lemma chunk_loop_diverges:
  "cs \<le> ov \<Longrightarrow> t \<noteq> [] \<Longrightarrow> chunk_loop t cs ov 0 [] = None"
  using chunk_loop_stuck[of t cs ov 0 "[]"] by (cases "chunk_loop t cs ov 0 []") auto

text \<open>
  Claim C1, as the code has it. The chunker has no guard against an overlap that
  reaches the chunk size: a call returns exactly when the trimmed text is empty or
  the overlap is less than the chunk size, and never returns otherwise.
\<close>

theorem chunk_text_returns_iff:
  "(\<exists>chunks. chunk_text text chunk_size chunk_overlap = Some chunks)
     = (strip text = [] \<or> chunk_overlap < chunk_size)"
proof (cases "strip text = []")
  case True
  then show ?thesis by (simp add: chunk_text_def)
next
  case False
  show ?thesis
  proof (cases "chunk_overlap < chunk_size")
    case True
    with False chunk_loop_terminates[OF True, of "strip text" 0 "[]"] show ?thesis
      by (simp add: chunk_text_def)
  next
    case ge: False
    then have "chunk_loop (strip text) chunk_size chunk_overlap 0 [] = None"
      using chunk_loop_diverges False by simp
    with False ge show ?thesis by (simp add: chunk_text_def)
  qed
qed

text \<open>
  Claim C1 as stated fails: with chunk size 1 and overlap 1 the chunker never returns
  on the text \<open>a\<close>.
\<close>

theorem chunk_text_overlap_eq_size_diverges: "chunk_text (py ''a'') 1 1 = None"
proof -
  have s: "strip (py ''a'') = py ''a''" by code_simp
  have "py ''a'' \<noteq> []" by (simp add: py_def)
  then have "chunk_loop (py ''a'') 1 1 0 [] = None"
    using chunk_loop_diverges[of 1 1 "py ''a''"] by simp
  with s \<open>py ''a'' \<noteq> []\<close> show ?thesis by (simp add: chunk_text_def)
qed

section \<open>The chunker: the chunks are the windows of the trimmed text\<close>

lemma py_slice_window:
  "0 \<le> start \<Longrightarrow> 0 \<le> cs \<Longrightarrow> py_slice xs start (start + cs) = take (nat cs) (drop (nat start) xs)"
  by (auto simp: py_slice_def slice_bound_def Let_def min_def nat_add_distrib)

lemma chunk_loop_windows:
  assumes "0 \<le> ov" "ov < cs"
  shows "chunk_loop t cs ov (int s) acc = Some (acc @ windows t (nat cs) (nat (cs - ov)) s)"
  using assms
proof (induction "length t - s" arbitrary: s acc rule: less_induct)
  case less
  have step: "0 < nat (cs - ov)" using less.prems by simp
  show ?case
  proof (cases "s < length t")
    case False
    then show ?thesis
      by (subst chunk_loop.simps, subst windows.simps) simp
  next
    case True
    have sl: "py_slice t (int s) (int s + cs) = take (nat cs) (drop s t)"
      using py_slice_window[of "int s" cs t] less.prems by simp
    have nxt: "int s + cs - ov = int (s + nat (cs - ov))" using less.prems by simp
    show ?thesis
    proof (cases "int s + cs - ov \<ge> int (length t)")
      case True
      then have "\<not> s + nat (cs - ov) < length t" using nxt by linarith
      then have "windows t (nat cs) (nat (cs - ov)) (s + nat (cs - ov)) = []"
        by (subst windows.simps) simp
      then have "windows t (nat cs) (nat (cs - ov)) s = [take (nat cs) (drop s t)]"
        using \<open>s < length t\<close> step by (subst windows.simps) simp
      with True \<open>s < length t\<close> sl show ?thesis
        by (subst chunk_loop.simps) simp
    next
      case False
      have "length t - (s + nat (cs - ov)) < length t - s"
        using \<open>s < length t\<close> step by linarith
      then have ih: "chunk_loop t cs ov (int s + cs - ov) (acc @ [take (nat cs) (drop s t)]) =
        Some ((acc @ [take (nat cs) (drop s t)]) @ windows t (nat cs) (nat (cs - ov)) (s + nat (cs - ov)))"
        using less.hyps[of "s + nat (cs - ov)" "acc @ [take (nat cs) (drop s t)]"] less.prems
        unfolding nxt by blast
      have w: "windows t (nat cs) (nat (cs - ov)) s =
          take (nat cs) (drop s t) # windows t (nat cs) (nat (cs - ov)) (s + nat (cs - ov))"
        using \<open>s < length t\<close> step by (subst windows.simps) simp
      from False \<open>s < length t\<close> sl ih w show ?thesis
        by (subst chunk_loop.simps) simp
    qed
  qed
qed

lemma windows_Nil: "length xs \<le> start \<Longrightarrow> windows xs width step start = []"
  by (subst windows.simps) simp

lemma windows_Cons:
  "start < length xs \<Longrightarrow> 0 < step \<Longrightarrow>
   windows xs width step start = take width (drop start xs) # windows xs width step (start + step)"
  by (subst windows.simps) simp

lemma windows_nth:
  "0 < step \<Longrightarrow> k < length (windows xs width step start) \<Longrightarrow>
   windows xs width step start ! k = take width (drop (start + k * step) xs)"
proof (induction k arbitrary: start)
  case 0
  then have "start < length xs" by (cases "start < length xs") (auto simp: windows_Nil)
  with 0 show ?case by (simp add: windows_Cons)
next
  case (Suc k)
  then have lt: "start < length xs" by (cases "start < length xs") (auto simp: windows_Nil)
  with Suc.prems have "k < length (windows xs width step (start + step))"
    by (simp add: windows_Cons)
  from Suc.IH[OF Suc.prems(1) this] lt Suc.prems(1) show ?case
    by (simp add: windows_Cons add.assoc add.commute)
qed

lemma length_windows:
  "0 < step \<Longrightarrow> length (windows xs width step start) = (length xs - start + step - 1) div step"
proof (induction "length xs - start" arbitrary: start rule: less_induct)
  case less
  show ?case
  proof (cases "start < length xs")
    case False
    with less.prems show ?thesis by (simp add: windows_Nil)
  next
    case True
    define X where "X = length xs - (start + step) + step - 1"
    have "length xs - (start + step) < length xs - start" using True less.prems by linarith
    from less.hyps[OF this less.prems]
    have ih: "length (windows xs width step (start + step)) = X div step"
      by (simp add: X_def)
    have len: "length (windows xs width step start) = Suc (X div step)"
      using windows_Cons[OF True less.prems, of width] ih by simp
    show ?thesis
    proof (cases "start + step \<le> length xs")
      case True
      then have "length xs - start + step - 1 = X + step"
        using less.prems unfolding X_def by linarith
      moreover have "(X + step) div step = Suc (X div step)"
        using div_add_self2[of step X] less.prems by simp
      ultimately show ?thesis using len by simp
    next
      case False
      then have "X = step - 1" unfolding X_def by simp
      then have x0: "X div step = 0" using less.prems by simp
      have lo: "step * 1 \<le> length xs - start + step - 1" using \<open>start < length xs\<close> by linarith
      have hi: "length xs - start + step - 1 < step * Suc 1" using False less.prems by simp
      have "(length xs - start + step - 1) div step = 1"
        using div_nat_eqI[OF lo hi] by simp
      with len x0 show ?thesis by simp
    qed
  qed
qed

lemma concat_drop_windows:
  "0 < step \<Longrightarrow> concat (map (drop ov) (windows xs (ov + step) step start)) = drop (start + ov) xs"
proof (induction "length xs - start" arbitrary: start rule: less_induct)
  case less
  show ?case
  proof (cases "start < length xs")
    case False
    with less.prems show ?thesis by (simp add: windows_Nil)
  next
    case True
    have "length xs - (start + step) < length xs - start" using True less.prems by linarith
    from less.hyps[OF this less.prems]
    have ih: "concat (map (drop ov) (windows xs (ov + step) step (start + step))) = drop (start + step + ov) xs" .
    have "drop ov (take (ov + step) (drop start xs)) = take step (drop (start + ov) xs)"
      by (simp add: drop_take add.commute)
    moreover have "take step (drop (start + ov) xs) @ drop (start + step + ov) xs = drop (start + ov) xs"
      by (metis add.assoc add.commute append_take_drop_id drop_drop)
    ultimately show ?thesis using ih True less.prems by (simp add: windows_Cons)
  qed
qed

lemma unoverlap_windows:
  assumes "0 < step"
  shows "unoverlap ov (windows xs (ov + step) step 0) = xs"
proof (cases "xs = []")
  case True
  then show ?thesis by (simp add: windows_Nil)
next
  case False
  then have "windows xs (ov + step) step 0 = take (ov + step) xs # windows xs (ov + step) step step"
    using assms by (simp add: windows_Cons)
  moreover have "concat (map (drop ov) (windows xs (ov + step) step step)) = drop (step + ov) xs"
    using concat_drop_windows[OF assms, of ov xs step] by simp
  ultimately show ?thesis by (simp add: add.commute)
qed

text \<open>
  Claim C9 as stated fails twice. With chunk size 3 and overlap 2 the text \<open>abcde\<close>
  gives five chunks, and the fourth, which is not the last, has length 2. And the
  chunks rebuild the trimmed text, not the text: \<open>" a"\<close> gives the one chunk \<open>a\<close>.
\<close>

theorem chunk_text_short_inner_chunk:
  "chunk_text (py ''abcde'') 3 2
     = Some [py ''abc'', py ''bcd'', py ''cde'', py ''de'', py ''e'']
   \<and> length (py ''de'') \<noteq> 3
   \<and> chunk_text (py '' a'') 2 0 = Some [py ''a'']
   \<and> unoverlap 0 [py ''a''] \<noteq> py '' a''"
  by (simp add: chunk_text_def chunk_loop.simps py_slice_def slice_bound_def strip_def
      lstrip_def rstrip_def isspace_def py_def)

text \<open>
  Claim C9, as the code has it. For \<open>chunk_size > chunk_overlap \<ge> 0\<close> the chunker
  returns; the chunks, joined with the leading overlap of every chunk after the first
  removed, give the trimmed text; chunk \<open>k\<close> is the window of the trimmed text that
  starts at \<open>k * (chunk_size - chunk_overlap)\<close> and is at most \<open>chunk_size\<close> long, so
  each window starts \<open>chunk_size - chunk_overlap\<close> after the one before; a chunk has
  length \<open>chunk_size\<close> whenever its window ends inside the text; and a text that is
  empty or all whitespace gives no chunk.
\<close>

theorem chunk_text_windows:
  assumes "0 \<le> chunk_overlap" "chunk_overlap < chunk_size"
  shows "\<exists>chunks. chunk_text text chunk_size chunk_overlap = Some chunks
     \<and> unoverlap (nat chunk_overlap) chunks = strip text
     \<and> length chunks
         = (length (strip text) + nat (chunk_size - chunk_overlap) - 1)
             div nat (chunk_size - chunk_overlap)
     \<and> (\<forall>k<length chunks.
          chunks ! k
            = take (nat chunk_size) (drop (k * nat (chunk_size - chunk_overlap)) (strip text)))
     \<and> (\<forall>k<length chunks.
          k * nat (chunk_size - chunk_overlap) + nat chunk_size \<le> length (strip text)
          \<longrightarrow> length (chunks ! k) = nat chunk_size)
     \<and> (strip text = [] \<longrightarrow> chunks = [])"
proof -
  define t where "t = strip text"
  define step where "step = nat (chunk_size - chunk_overlap)"
  define ws where "ws = windows t (nat chunk_size) step 0"
  have step: "0 < step" using assms by (simp add: step_def)
  have size: "nat chunk_size = nat chunk_overlap + step" using assms by (simp add: step_def)
  have run: "chunk_text text chunk_size chunk_overlap = Some ws"
  proof (cases "t = []")
    case True
    then show ?thesis by (simp add: chunk_text_def t_def ws_def windows_Nil)
  next
    case False
    then show ?thesis
      using chunk_loop_windows[OF assms, of t 0 "[]"]
      by (simp add: chunk_text_def t_def ws_def step_def)
  qed
  have rec: "unoverlap (nat chunk_overlap) ws = t"
    unfolding ws_def size by (rule unoverlap_windows[OF step])
  have len: "length ws = (length t + step - 1) div step"
    unfolding ws_def using length_windows[OF step, of t "nat chunk_size" 0] by simp
  have nth: "\<forall>k<length ws. ws ! k = take (nat chunk_size) (drop (k * step) t)"
    unfolding ws_def using windows_nth[OF step, of _ t "nat chunk_size" 0] by simp
  have full: "\<forall>k<length ws. k * step + nat chunk_size \<le> length t \<longrightarrow> length (ws ! k) = nat chunk_size"
    using nth by simp
  have emp: "t = [] \<longrightarrow> ws = []" by (simp add: ws_def windows_Nil)
  from run rec len nth full emp show ?thesis
    unfolding t_def step_def by blast
qed


theorem chunk_text_windows_witness:
  "\<exists>chunks. chunk_text (py ''abcde'') 3 2 = Some chunks
     \<and> unoverlap 2 chunks = py ''abcde'' \<and> length chunks = 5
     \<and> chunks ! 3 = py ''de''"
proof -
  have a: "(0::int) \<le> 2" and b: "(2::int) < 3" by simp_all
  have s: "strip (py ''abcde'') = py ''abcde''" by code_simp
  have l: "length (py ''abcde'') = 5" by (simp add: py_def)
  from chunk_text_windows[OF a b, of "py ''abcde''"] obtain chunks where
    c: "chunk_text (py ''abcde'') 3 2 = Some chunks"
      "unoverlap (nat 2) chunks = strip (py ''abcde'')"
      "length chunks = (length (strip (py ''abcde'')) + nat (3 - 2) - 1) div nat (3 - 2)"
      "\<forall>k<length chunks. chunks ! k = take (nat 3) (drop (k * nat (3 - 2)) (strip (py ''abcde'')))"
    by blast
  from c(3) have len: "length chunks = 5" by (simp add: s l)
  then have "chunks ! 3 = take (nat 3) (drop (3 * nat (3 - 2)) (py ''abcde''))"
    using c(4) unfolding s by simp
  then have "chunks ! 3 = py ''de''" by (simp add: py_def)
  with c(1) c(2) len s show ?thesis by auto
qed

section \<open>Trimming\<close>

lemma strip_Nil: "strip [] = []"
  by (simp add: strip_def lstrip_def rstrip_def)

lemma rstrip_prefix: "rstrip t = take (length t - length (takeWhile isspace (rev t))) t"
  by (simp add: rstrip_def dropWhile_eq_drop rev_drop)

lemma rstrip_last: "rstrip t \<noteq> [] \<Longrightarrow> \<not> isspace (last (rstrip t))"
  unfolding rstrip_def by (simp add: last_rev hd_dropWhile)

lemma rstrip_hd: "rstrip t \<noteq> [] \<Longrightarrow> hd (rstrip t) = hd t"
  by (metis rstrip_prefix hd_take take_eq_Nil not_gr_zero)

lemma lstrip_hd: "lstrip s \<noteq> [] \<Longrightarrow> \<not> isspace (hd (lstrip s))"
  unfolding lstrip_def by (simp add: hd_dropWhile)

lemma strip_ends:
  assumes "strip s \<noteq> []"
  shows "\<not> isspace (hd (strip s))" and "\<not> isspace (last (strip s))"
proof -
  from assms have l: "lstrip s \<noteq> []" by (auto simp: strip_def rstrip_def)
  show "\<not> isspace (hd (strip s))"
    using assms rstrip_hd[of "lstrip s"] lstrip_hd[OF l] by (simp add: strip_def)
  show "\<not> isspace (last (strip s))"
    using assms rstrip_last[of "lstrip s"] by (simp add: strip_def)
qed

lemma strip_fixed:
  assumes "s \<noteq> []" "\<not> isspace (hd s)" "\<not> isspace (last s)"
  shows "strip s = s"
proof -
  from assms have "lstrip s = s" by (cases s) (auto simp: lstrip_def)
  moreover from assms have "rstrip s = s"
    by (cases "rev s") (auto simp: rstrip_def last_rev[symmetric] hd_rev)
  ultimately show ?thesis by (simp add: strip_def)
qed

lemma strip_idem: "strip (strip s) = strip s"
  by (cases "strip s = []") (auto simp: strip_Nil strip_fixed strip_ends)

lemma strip_eval: "strip s = rev (dropWhile isspace (rev (dropWhile isspace s)))"
  by (simp add: strip_def lstrip_def rstrip_def)

section \<open>The memory store: writes\<close>

lemma add_item_blank: "strip content = [] \<Longrightarrow> add_item doc_id now role content h cu c = ([], c)"
  by (simp add: add_item_def)

lemma add_item_stored:
  "strip content \<noteq> [] \<Longrightarrow>
   add_item doc_id now role content h cu c =
     (doc_id, c @ [\<lparr>item_id = doc_id, doc = strip content,
                     meta = \<lparr>m_role = role, m_history_uid = h, m_conf_uid = cu,
                              m_timestamp = now\<rparr>\<rparr>])"
  by (auto simp: add_item_def collection_add_def strip_Nil)

lemma add_item_trimmed:
  "stored_trimmed c \<Longrightarrow> stored_trimmed (snd (add_item doc_id now role content h cu c))"
  by (cases "strip content = []")
     (simp_all add: add_item_blank add_item_stored stored_trimmed_def strip_idem)

lemma set_user_profile_trimmed:
  "stored_trimmed c \<Longrightarrow> stored_trimmed (set_user_profile doc_id now h cu content c)"
  by (simp add: set_user_profile_def add_item_trimmed)

lemma add_to_user_profile_trimmed:
  "stored_trimmed c \<Longrightarrow> stored_trimmed (add_to_user_profile doc_id now h cu new_fact c)"
  by (simp add: add_to_user_profile_def Let_def add_item_trimmed)

text \<open>
  Claim C5. A call of \<open>add_item\<close> with content that is empty or all whitespace returns
  the empty id and leaves the collection, and so \<open>count()\<close>, as it was; it returns
  before the store is touched, so nothing can raise. A call with any other content stores the trimmed content, which
  is its own trimming. And every write path (\<open>add_item\<close>, \<open>set_user_profile\<close>,
  \<open>add_to_user_profile\<close>) keeps the invariant that every stored content is not empty
  and trimmed.
\<close>

theorem blank_content_dropped_stored_content_trimmed:
  "(strip content = [] \<longrightarrow>
      add_item doc_id now role content h cu c = ([], c)
      \<and> count (snd (add_item doc_id now role content h cu c)) = count c)
   \<and> (strip content \<noteq> [] \<longrightarrow>
        add_item doc_id now role content h cu c =
          (doc_id, c @ [\<lparr>item_id = doc_id, doc = strip content,
                          meta = \<lparr>m_role = role, m_history_uid = h, m_conf_uid = cu,
                                   m_timestamp = now\<rparr>\<rparr>])
        \<and> strip (strip content) = strip content)
   \<and> (stored_trimmed c \<longrightarrow>
        stored_trimmed (snd (add_item doc_id now role content h cu c))
        \<and> stored_trimmed (set_user_profile doc_id now h cu content c)
        \<and> stored_trimmed (add_to_user_profile doc_id now h cu content c))"
  using add_item_blank[of content doc_id now role h cu c]
    add_item_stored[of content doc_id now role h cu c]
    add_item_trimmed[of c doc_id now role content h cu]
    set_user_profile_trimmed[of c doc_id now h cu content]
    add_to_user_profile_trimmed[of c doc_id now h cu content]
  by (simp add: strip_idem)

theorem blank_content_dropped_stored_content_trimmed_witness:
  "add_item (py ''i1'') 5 ROLE_FACT (py ''  '') (py ''h'') (py ''c'') [] = ([], [])
   \<and> add_item (py ''i1'') 5 ROLE_FACT (py '' hi '') (py ''h'') (py ''c'') []
       = (py ''i1'', [\<lparr>item_id = py ''i1'', doc = py ''hi'',
                          meta = \<lparr>m_role = ROLE_FACT, m_history_uid = py ''h'',
                                   m_conf_uid = py ''c'', m_timestamp = 5\<rparr>\<rparr>])
   \<and> stored_trimmed (add_to_user_profile (py ''i1'') 5 (py ''h'') (py ''c'') (py '' hi '') [])"
proof -
  have blank: "strip (py ''  '') = []"
    by (simp add: strip_eval isspace_def py_def)
  have trimmed: "strip (py '' hi '') = py ''hi''"
    by (simp add: strip_eval isspace_def py_def)
  have nonblank: "strip (py '' hi '') \<noteq> []"
    unfolding trimmed by (simp add: py_def)
  have inv: "stored_trimmed []"
    by (simp add: stored_trimmed_def)
  show ?thesis
    using blank_content_dropped_stored_content_trimmed
            [of "py ''  ''" "py ''i1''" 5 ROLE_FACT "py ''h''" "py ''c''" "[]"]
          blank_content_dropped_stored_content_trimmed
            [of "py '' hi ''" "py ''i1''" 5 ROLE_FACT "py ''h''" "py ''c''" "[]"]
          blank nonblank inv
    by (simp add: trimmed)
qed

text \<open>
  Claim C3 as stated fails: \<open>add_item\<close> does not look at the role. The role
  \<open>bogus\<close> is stored as it is, and the call returns the new id.
\<close>

theorem add_item_stores_unknown_role:
  "add_item (py ''i1'') 5 (py ''bogus'') (py ''hi'') (py ''h'') (py ''c'') []
     = (py ''i1'', [\<lparr>item_id = py ''i1'', doc = py ''hi'',
                        meta = \<lparr>m_role = py ''bogus'', m_history_uid = py ''h'',
                                 m_conf_uid = py ''c'', m_timestamp = 5\<rparr>\<rparr>])
   \<and> py ''bogus'' \<notin> {ROLE_USER, ROLE_ASSISTANT, ROLE_FACT, ROLE_SUMMARY, ROLE_USER_PROFILE}"
  by (simp add: add_item_def collection_add_def strip_eval isspace_def py_def ROLE_USER_def
      ROLE_ASSISTANT_def ROLE_FACT_def ROLE_SUMMARY_def ROLE_USER_PROFILE_def)

text \<open>
  Claim C3, as the code has it. For every role, in the set of five or not, a call of
  \<open>add_item\<close> with content that is not blank returns the new id and stores one item
  that carries the role as given and the trimmed content; the function has no test of
  the role and no \<open>raise\<close> of its own.
\<close>

theorem add_item_keeps_role:
  assumes "strip content \<noteq> []"
  shows "fst (add_item doc_id now role content h cu c) = doc_id
     \<and> length (snd (add_item doc_id now role content h cu c)) = Suc (length c)
     \<and> m_role (meta (last (snd (add_item doc_id now role content h cu c)))) = role
     \<and> doc (last (snd (add_item doc_id now role content h cu c))) = strip content"
  using assms by (simp add: add_item_stored)

theorem add_item_keeps_role_witness:
  "fst (add_item (py ''i1'') 5 (py ''bogus'') (py ''hi'') (py ''h'') (py ''c'') []) = py ''i1''
   \<and> m_role (meta (last (snd
          (add_item (py ''i1'') 5 (py ''bogus'') (py ''hi'') (py ''h'') (py ''c'') []))))
       = py ''bogus''"
proof -
  have "strip (py ''hi'') \<noteq> []"
    by (simp add: strip_eval isspace_def py_def)
  from add_item_keeps_role[OF this, of "py ''i1''" 5 "py ''bogus''" "py ''h''" "py ''c''" "[]"]
  show ?thesis by simp
qed


section \<open>The memory store: retention\<close>

lemmas role_defs = ROLE_USER_def ROLE_ASSISTANT_def ROLE_FACT_def ROLE_SUMMARY_def
  ROLE_USER_PROFILE_def

lemma matches_retention:
  "matches (And ([TimestampLt (now - days * 86400)]
             @ (if truthy h then [Eq HistoryUid (the h)] else [])
             @ [Nin Role PERSISTENT_ROLES])) (meta it)
   = expired now days h it"
  by (auto simp: expired_def PERSISTENT_ROLES_def)

lemma delete_ids_of_filter:
  assumes "distinct (map item_id c)"
  shows "filter (\<lambda>it. item_id it \<notin> set (map item_id (filter P c))) c = filter (\<lambda>it. \<not> P it) c"
proof (rule filter_cong[OF refl])
  fix it assume m: "it \<in> set c"
  have inj: "inj_on item_id (set c)" using assms by (simp add: distinct_map)
  show "(item_id it \<notin> set (map item_id (filter P c))) = (\<not> P it)"
  proof
    assume a: "item_id it \<notin> set (map item_id (filter P c))"
    show "\<not> P it" using a m by auto
  next
    assume np: "\<not> P it"
    show "item_id it \<notin> set (map item_id (filter P c))"
    proof
      assume "item_id it \<in> set (map item_id (filter P c))"
      then obtain x where "x \<in> set c" "P x" "item_id x = item_id it" by auto
      with inj m have "x = it" by (auto dest: inj_onD)
      with \<open>P x\<close> np show False by simp
    qed
  qed
qed

lemma delete_older_default:
  assumes "distinct (map item_id c)"
  shows "delete_older_than_days now days h None c
     = (int (length (filter (expired now days h) c)), filter (\<lambda>it. \<not> expired now days h it) c)"
proof -
  have g: "collection_get (matches (And ([TimestampLt (now - days * 86400)]
             @ (if truthy h then [Eq HistoryUid (the h)] else [])
             @ [Nin Role PERSISTENT_ROLES]))) c = filter (expired now days h) c"
    unfolding collection_get_def using matches_retention by presburger
  show ?thesis
  proof (cases "filter (expired now days h) c = []")
    case True
    then have "filter (\<lambda>it. \<not> expired now days h it) c = c"
      by (auto simp: filter_empty_conv filter_id_conv)
    with True g show ?thesis by (simp add: delete_older_than_days_def Let_def)
  next
    case False
    with g delete_ids_of_filter[OF assms, of "expired now days h"] show ?thesis
      by (simp add: delete_older_than_days_def Let_def collection_delete_def)
  qed
qed



text \<open>
  Claim C10. The empty set passed as \<open>exclude_roles\<close> is falsy, so the call is the call
  with the default exclusion of \<open>fact\<close> and \<open>user_profile\<close>: it gives the same count
  and the same collection, and (ids being distinct) every \<open>fact\<close> and \<open>user_profile\<close>
  item is still there after it.
\<close>

theorem empty_exclude_roles_is_default:
  "delete_older_than_days now days history_uid (Some {}) c
     = delete_older_than_days now days history_uid None c
   \<and> (distinct (map item_id c) \<longrightarrow>
        filter (\<lambda>it. m_role (meta it) \<in> {ROLE_FACT, ROLE_USER_PROFILE})
          (snd (delete_older_than_days now days history_uid (Some {}) c))
        = filter (\<lambda>it. m_role (meta it) \<in> {ROLE_FACT, ROLE_USER_PROFILE}) c)"
proof -
  have falsy: "(case Some ({}::pystr set) of None \<Rightarrow> PERSISTENT_ROLES
                | Some s \<Rightarrow> if s = {} then PERSISTENT_ROLES else s) = PERSISTENT_ROLES"
    by simp
  have same: "delete_older_than_days now days history_uid (Some {}) c
     = delete_older_than_days now days history_uid None c"
    unfolding delete_older_than_days_def falsy by simp
  have keep: "filter (\<lambda>it. m_role (meta it) \<in> {ROLE_FACT, ROLE_USER_PROFILE})
          (snd (delete_older_than_days now days history_uid None c))
        = filter (\<lambda>it. m_role (meta it) \<in> {ROLE_FACT, ROLE_USER_PROFILE}) c"
    if d: "distinct (map item_id c)"
  proof -
    have "filter (\<lambda>it. m_role (meta it) \<in> {ROLE_FACT, ROLE_USER_PROFILE})
            (filter (\<lambda>it. \<not> expired now days history_uid it) c)
          = filter (\<lambda>it. m_role (meta it) \<in> {ROLE_FACT, ROLE_USER_PROFILE}) c"
      unfolding filter_filter by (rule filter_cong) (auto simp: expired_def)
    then show ?thesis
      unfolding delete_older_default[OF d, of now days history_uid] by simp
  qed
  from same keep show ?thesis by simp
qed

theorem empty_exclude_witness:
  "delete_older_than_days 1000 0 None (Some {}) sample_store
     = (1, [mk_item ''i2'' ''Name: X'' ROLE_FACT 10,
            mk_item ''i3'' ''profile'' ROLE_USER_PROFILE 10,
            mk_item ''i4'' ''later'' ROLE_SUMMARY 2000])"
proof -
  have "delete_older_than_days 1000 0 None None sample_store
     = (1, [mk_item ''i2'' ''Name: X'' ROLE_FACT 10,
            mk_item ''i3'' ''profile'' ROLE_USER_PROFILE 10,
            mk_item ''i4'' ''later'' ROLE_SUMMARY 2000])"
    by (simp add: delete_older_than_days_def collection_get_def collection_delete_def
        PERSISTENT_ROLES_def sample_store_def mk_item_def role_defs py_def)
  with empty_exclude_roles_is_default[of 1000 0 None sample_store] show ?thesis by simp
qed

section \<open>The memory store: query\<close>

lemma query_empty_store: "query rank query_text n history_uid conf_uid roles [] = Inr []"
  by (simp add: query_def collection_count_def)

lemma query_nonpositive:
  "c \<noteq> [] \<Longrightarrow> n \<le> 0 \<Longrightarrow> query rank query_text n history_uid conf_uid roles c = Inl (StoreError 0)"
  by (simp add: query_def collection_count_def collection_query_def min_def)

lemma ChromaRAG_query_nonpositive:
  "n \<le> 0 \<Longrightarrow> ChromaRAG_query rank query_text n wh c = Inr []"
  by (simp add: ChromaRAG_query_def min_def collection_count_def)

text \<open>
  Claim C2 holds on the empty store and fails for \<open>n \<le> 0\<close> on a store that is not
  empty: \<open>DialogueMemory.query\<close> hands \<open>min(n, count)\<close> to the vector store without the
  test \<open>ChromaRAG.query\<close> makes, and the store's exception reaches the caller. Here
  with \<open>n = 0\<close> on the sample collection, next to \<open>ChromaRAG.query\<close> on the same input
  and to the query on the empty store.
\<close>

theorem query_zero_results_raises:
  "query (\<lambda>q xs. xs) (py ''q'') 0 None None None sample_store = Inl (StoreError 0)
   \<and> ChromaRAG_query (\<lambda>q xs. xs) (py ''q'') 0 None sample_store = Inr []
   \<and> query (\<lambda>q xs. xs) (py ''q'') 0 None None None [] = Inr []"
  by (simp add: query_def ChromaRAG_query_def collection_count_def collection_query_def
      sample_store_def)

section \<open>The memory store: the user profile\<close>

lemma sort_key_append_least:
  "\<forall>x\<in>set xs. f y < f x \<Longrightarrow> sort_key f (xs @ [y]) = y # sort_key f xs"
  by (induction xs) auto

lemma scope_where_matches:
  "matches (scope_where r h cu) m
     = (m_role m = r \<and> m_history_uid m = h \<and> (cu = [] \<or> m_conf_uid m = cu))"
  by (auto simp: scope_where_def)

lemma get_user_profile_strictly_latest:
  assumes "strip content \<noteq> []"
    and "\<forall>it\<in>set c. m_role (meta it) = ROLE_USER_PROFILE \<and> m_history_uid (meta it) = h
            \<longrightarrow> m_timestamp (meta it) < now"
  shows "get_user_profile h cu (set_user_profile doc_id now h cu content c) = strip content"
proof -
  define new :: "metadata item" where "new = \<lparr>item_id = doc_id, doc = strip content,
      meta = \<lparr>m_role = ROLE_USER_PROFILE, m_history_uid = h, m_conf_uid = cu,
               m_timestamp = now\<rparr>\<rparr>"
  define old where "old = filter (\<lambda>it. matches (scope_where ROLE_USER_PROFILE h cu) (meta it)) c"
  have ne: "content \<noteq> []" using assms(1) by (auto simp: strip_def lstrip_def rstrip_def)
  have s: "set_user_profile doc_id now h cu content c = c @ [new]"
    using assms(1) ne by (simp add: set_user_profile_def add_item_def collection_add_def strip_idem new_def)
  have g: "collection_get (matches (scope_where ROLE_USER_PROFILE h cu)) (c @ [new]) = old @ [new]"
    by (simp add: collection_get_def old_def scope_where_matches new_def)
  have "\<forall>x\<in>set old. - m_timestamp (meta new) < - m_timestamp (meta x)"
    using assms(2) by (auto simp: old_def scope_where_matches new_def)
  then have "sort_newest_first (old @ [new]) = new # sort_newest_first old"
    unfolding sort_newest_first_def by (rule sort_key_append_least)
  with s g show ?thesis by (simp add: get_user_profile_def new_def strip_idem)
qed

lemma get_user_profile_none:
  "\<forall>it\<in>set c. \<not> matches (scope_where ROLE_USER_PROFILE h cu) (meta it)
   \<Longrightarrow> get_user_profile h cu c = []"
  by (simp add: get_user_profile_def collection_get_def sort_newest_first_def filter_empty_conv[THEN iffD2])

lemma get_user_profile_max:
  assumes "p \<in> set c" "matches (scope_where ROLE_USER_PROFILE h cu) (meta p)"
  shows "\<exists>q\<in>set c. matches (scope_where ROLE_USER_PROFILE h cu) (meta q)
          \<and> get_user_profile h cu c = strip (doc q)
          \<and> (\<forall>r\<in>set c. matches (scope_where ROLE_USER_PROFILE h cu) (meta r)
                \<longrightarrow> m_timestamp (meta r) \<le> m_timestamp (meta q))"
proof -
  define xs where "xs = collection_get (matches (scope_where ROLE_USER_PROFILE h cu)) c"
  define ys where "ys = sort_newest_first xs"
  have sx: "set xs = {it \<in> set c. matches (scope_where ROLE_USER_PROFILE h cu) (meta it)}"
    by (auto simp: xs_def collection_get_def)
  have sy: "set ys = set xs" by (simp add: ys_def sort_newest_first_def)
  have sorted: "sorted (map (\<lambda>it. - m_timestamp (meta it)) ys)"
    by (simp add: ys_def sort_newest_first_def)
  from assms sx sy have "ys \<noteq> []" by auto
  then obtain q rest where ys: "ys = q # rest" by (cases ys) auto
  have "q \<in> set xs" using sy ys by auto
  moreover have "get_user_profile h cu c = strip (doc q)"
    using ys by (simp add: get_user_profile_def xs_def[symmetric] ys_def[symmetric])
  moreover have "\<forall>r\<in>set xs. m_timestamp (meta r) \<le> m_timestamp (meta q)"
    using sorted sy ys by auto
  ultimately show ?thesis using sx by auto
qed

text \<open>
  Claim C6 holds when the second write has a later timestamp (the three lemmas above)
  and fails on a tie: timestamps are whole seconds, the sort is stable, and of two
  profiles written in the same second the first one written is returned.
\<close>

theorem same_second_profile_returns_first:
  "get_user_profile (py ''h'') (py ''c'')
     (set_user_profile (py ''i2'') 100 (py ''h'') (py ''c'') (py ''B'')
        (set_user_profile (py ''i1'') 100 (py ''h'') (py ''c'') (py ''A'') []))
   = py ''A''"
  by (simp add: get_user_profile_def set_user_profile_def add_item_def collection_add_def
      collection_get_def scope_where_def sort_newest_first_def strip_def lstrip_def rstrip_def
      isspace_def role_defs py_def)

section \<open>The consolidation scheduler\<close>

lemma try_except_returns: "fst (try_except body w) = Inr ()"
  by (simp add: try_except_def split: prod.splits sum.splits)



lemma for_each_stub:
  "for_each (\<lambda>fact. andthen (dm_add_item (stub_memory facts) r fact h cu) (\<lambda>_. ret ())) xs w
     = (Inr (), w)"
  by (induction xs) (simp_all add: andthen_def ret_def stub_memory_def)

lemma dm_get_all_facts_stub: "dm_get_all_facts (stub_memory facts) h cu = ret facts"
  by (simp add: stub_memory_def)

lemma profile_merge_recording:
  "profile_merge (stub_memory facts) (recording_llm reply) cu h fs w
     = (Inr (), w @ [PROFILE_MERGE_SYSTEM])"
  by (simp add: profile_merge_def try_except_def andthen_def recording_llm_def ret_def
      stub_memory_def)

lemma fact_extraction_recording:
  "fst (fact_extraction (stub_memory facts) (recording_llm reply) cu h t w) = Inr ()
   \<and> (\<exists>rest. snd (fact_extraction (stub_memory facts) (recording_llm reply) cu h t w)
                = w @ FACT_EXTRACTION_SYSTEM # rest
              \<and> set rest \<subseteq> {PROFILE_MERGE_SYSTEM})"
proof -
  define facts_text where
    "facts_text = reply (user_message (dialog_prompt t)) FACT_EXTRACTION_SYSTEM"
  define w1 where "w1 = w @ [FACT_EXTRACTION_SYSTEM]"
  have ok: "fst (fact_extraction (stub_memory facts) (recording_llm reply) cu h t w) = Inr ()"
    unfolding fact_extraction_def by (rule try_except_returns)
  have world: "\<exists>rest. snd (fact_extraction (stub_memory facts) (recording_llm reply) cu h t w)
                = w @ FACT_EXTRACTION_SYSTEM # rest \<and> set rest \<subseteq> {PROFILE_MERGE_SYSTEM}"
  proof (cases "facts_text \<noteq> [] \<and> strip facts_text \<noteq> [] \<and> facts \<noteq> []")
    case True
    have "profile_merge (stub_memory facts) (recording_llm reply) cu h facts w1
            = (Inr (), w1 @ [PROFILE_MERGE_SYSTEM])"
      by (rule profile_merge_recording)
    with True have "snd (fact_extraction (stub_memory facts) (recording_llm reply) cu h t w)
            = w @ FACT_EXTRACTION_SYSTEM # [PROFILE_MERGE_SYSTEM]"
      by (simp add: fact_extraction_def try_except_def andthen_def recording_llm_def ret_def
          for_each_stub facts_text_def[symmetric] w1_def dm_get_all_facts_stub
          split: prod.splits sum.splits)
    then show ?thesis by simp
  next
    case False
    then have "snd (fact_extraction (stub_memory facts) (recording_llm reply) cu h t w)
            = w @ FACT_EXTRACTION_SYSTEM # []"
      by (auto simp add: fact_extraction_def try_except_def andthen_def recording_llm_def ret_def
          for_each_stub facts_text_def[symmetric] dm_get_all_facts_stub
          split: prod.splits sum.splits)
    then show ?thesis by simp
  qed
  from ok world show ?thesis by simp
qed

lemma summarization_recording:
  "summarization (stub_memory facts) (recording_llm reply) cu h t w
     = (Inr (), w @ [SUMMARY_SYSTEM])"
  by (simp add: summarization_def try_except_def andthen_def recording_llm_def ret_def
      stub_memory_def)

lemma stages_run_eq:
  assumes "messages_raw \<noteq> []"
    and "dialog_lines (recent_messages messages_raw) = Inr ls"
    and "strip (join (py [CHR 0x0A]) ls) \<noteq> []"
  shows "\<exists>rest. set rest \<subseteq> {PROFILE_MERGE_SYSTEM}
     \<and> stages_run reply facts messages_raw message_count
         = (if fact_extraction_due message_count then FACT_EXTRACTION_SYSTEM # rest else [])
           @ (if summary_due message_count then [SUMMARY_SYSTEM] else [])"
proof -
  define t where "t = join (py [CHR 0x0A]) ls"
  obtain rest where rest: "set rest \<subseteq> {PROFILE_MERGE_SYSTEM}"
    "snd (fact_extraction (stub_memory facts) (recording_llm reply) (py ''c'') (py ''h'') t [])
       = [] @ FACT_EXTRACTION_SYSTEM # rest"
    using fact_extraction_recording[of facts reply "py ''c''" "py ''h''" t "[]"] by blast
  have ok: "fst (fact_extraction (stub_memory facts) (recording_llm reply) (py ''c'') (py ''h'') t [])
       = Inr ()"
    using fact_extraction_recording[of facts reply "py ''c''" "py ''h''" t "[]"] by blast
  from ok rest(2)
  have fe: "fact_extraction (stub_memory facts) (recording_llm reply) (py ''c'') (py ''h'') t []
       = (Inr (), FACT_EXTRACTION_SYSTEM # rest)"
    by (cases "fact_extraction (stub_memory facts) (recording_llm reply) (py ''c'') (py ''h'') t []")
       simp
  have "stages_run reply facts messages_raw message_count
         = (if fact_extraction_due message_count then FACT_EXTRACTION_SYSTEM # rest else [])
           @ (if summary_due message_count then [SUMMARY_SYSTEM] else [])"
  proof -
    have ids: "py ''h'' \<noteq> []" "py ''c'' \<noteq> []" by (simp_all add: py_def)
    show ?thesis
      using assms ids
      by (simp add: stages_run_def process_memory_background_def try_except_def andthen_def
          ret_def fe summarization_recording Let_def t_def[symmetric])
  qed
  with rest(1) show ?thesis by blast
qed

lemma fact_due_20:
  "1 \<le> n \<Longrightarrow> n \<le> 20 \<Longrightarrow> fact_extraction_due n = (n \<in> {3, 6, 9, 12, 15, 18})"
  unfolding fact_extraction_due_def FACT_EXTRACT_EVERY_def by (simp; presburger)

lemma summary_due_20:
  "1 \<le> n \<Longrightarrow> n \<le> 20 \<Longrightarrow> summary_due n = (n \<in> {6, 12, 18})"
  unfolding summary_due_def SUMMARY_EVERY_def by (simp; presburger)

lemma stages_run_members:
  assumes "messages_raw \<noteq> []"
    and "dialog_lines (recent_messages messages_raw) = Inr ls"
    and "strip (join (py [CHR 0x0A]) ls) \<noteq> []"
  shows "(FACT_EXTRACTION_SYSTEM \<in> set (stages_run reply facts messages_raw n))
           = fact_extraction_due n"
    and "(SUMMARY_SYSTEM \<in> set (stages_run reply facts messages_raw n)) = summary_due n"
proof -
  obtain rest where rest: "set rest \<subseteq> {PROFILE_MERGE_SYSTEM}"
    "stages_run reply facts messages_raw n
         = (if fact_extraction_due n then FACT_EXTRACTION_SYSTEM # rest else [])
           @ (if summary_due n then [SUMMARY_SYSTEM] else [])"
    using stages_run_eq[OF assms, of reply facts n] by blast
  from rest(1) have "SUMMARY_SYSTEM \<notin> set rest" by auto
  with rest show "(FACT_EXTRACTION_SYSTEM \<in> set (stages_run reply facts messages_raw n))
           = fact_extraction_due n"
    and "(SUMMARY_SYSTEM \<in> set (stages_run reply facts messages_raw n)) = summary_due n"
    by auto
qed

text \<open>
  Claim C4. When the scheduler gets as far as its cadence tests (memory enabled, ids
  not empty, a history whose dialogue text is not blank), then whatever the LLM
  answers and whatever facts the store holds, the fact extraction prompt goes to the
  LLM exactly for the message counts 3, 6, 9, 12, 15, 18 among 1 to 20,
  and the summary prompt exactly for 6, 12, 18; for every message count \<open>n\<close>, fact
  extraction runs iff \<open>n \<ge> 3\<close> and \<open>(n - 3) mod 3 = 0\<close>, and summarization iff
  \<open>n \<ge> 6\<close> and \<open>(n - 6) mod 6 = 0\<close>.
\<close>

theorem scheduler_cadence:
  assumes "messages_raw \<noteq> []"
    and "dialog_lines (recent_messages messages_raw) = Inr ls"
    and "strip (join (py [CHR 0x0A]) ls) \<noteq> []"
  shows "(\<forall>n\<in>{1..20}.
            (FACT_EXTRACTION_SYSTEM \<in> set (stages_run reply facts messages_raw n))
               = (n \<in> {3, 6, 9, 12, 15, 18})
          \<and> (SUMMARY_SYSTEM \<in> set (stages_run reply facts messages_raw n)) = (n \<in> {6, 12, 18}))
     \<and> (\<forall>n. (FACT_EXTRACTION_SYSTEM \<in> set (stages_run reply facts messages_raw n))
               = (n \<ge> 3 \<and> (n - 3) mod 3 = 0)
          \<and> (SUMMARY_SYSTEM \<in> set (stages_run reply facts messages_raw n))
               = (n \<ge> 6 \<and> (n - 6) mod 6 = 0)
          \<and> fact_extraction_due n = (n \<ge> 3 \<and> (n - 3) mod 3 = 0)
          \<and> summary_due n = (n \<ge> 6 \<and> (n - 6) mod 6 = 0))"
proof -
  note gen = stages_run_members[OF assms, of reply facts]
  have a: "\<forall>n\<in>{1..20}.
            (FACT_EXTRACTION_SYSTEM \<in> set (stages_run reply facts messages_raw n))
               = (n \<in> {3, 6, 9, 12, 15, 18})
          \<and> (SUMMARY_SYSTEM \<in> set (stages_run reply facts messages_raw n)) = (n \<in> {6, 12, 18})"
    unfolding gen using fact_due_20 summary_due_20 by simp
  have b: "\<forall>n. (FACT_EXTRACTION_SYSTEM \<in> set (stages_run reply facts messages_raw n))
               = (n \<ge> 3 \<and> (n - 3) mod 3 = 0)
          \<and> (SUMMARY_SYSTEM \<in> set (stages_run reply facts messages_raw n))
               = (n \<ge> 6 \<and> (n - 6) mod 6 = 0)
          \<and> fact_extraction_due n = (n \<ge> 3 \<and> (n - 3) mod 3 = 0)
          \<and> summary_due n = (n \<ge> 6 \<and> (n - 6) mod 6 = 0)"
    unfolding gen
    by (simp add: fact_extraction_due_def summary_due_def FACT_EXTRACT_EVERY_def SUMMARY_EVERY_def)
  from a b show ?thesis by blast
qed

theorem scheduler_cadence_witness:
  "FACT_EXTRACTION_SYSTEM \<in> set (stages_run (\<lambda>messages system. py ''Name: Sasha'') [py ''Name: Sasha''] one_message 3)
   \<and> SUMMARY_SYSTEM \<notin> set (stages_run (\<lambda>messages system. py ''Name: Sasha'') [py ''Name: Sasha''] one_message 3)
   \<and> FACT_EXTRACTION_SYSTEM \<notin> set (stages_run (\<lambda>messages system. py ''Name: Sasha'') [py ''Name: Sasha''] one_message 4)
   \<and> FACT_EXTRACTION_SYSTEM \<in> set (stages_run (\<lambda>messages system. py ''Name: Sasha'') [py ''Name: Sasha''] one_message 18)
   \<and> SUMMARY_SYSTEM \<in> set (stages_run (\<lambda>messages system. py ''Name: Sasha'') [py ''Name: Sasha''] one_message 18)
   \<and> FACT_EXTRACTION_SYSTEM \<notin> set (stages_run (\<lambda>messages system. py ''Name: Sasha'') [py ''Name: Sasha''] one_message 20)"
proof -
  have ne: "one_message \<noteq> []" by (simp add: one_message_def)
  have ls: "dialog_lines (recent_messages one_message)
      = Inr [[1055, 1086, 1083, 1100, 1079, 1086, 1074, 1072, 1090, 1077, 1083, 1100]
             @ py '': '' @ py ''hi'']"
    by (simp add: one_message_def recent_messages_def dialog_line_def py_def)
  have nb: "strip (join (py [CHR 0x0A])
      [[1055, 1086, 1083, 1100, 1079, 1086, 1074, 1072, 1090, 1077, 1083, 1100]
             @ py '': '' @ py ''hi'']) \<noteq> []"
    by (simp add: strip_def lstrip_def rstrip_def isspace_def py_def)
  from scheduler_cadence[OF ne ls nb, of "\<lambda>messages system. py ''Name: Sasha''" "[py ''Name: Sasha'']"] have
    "\<forall>n\<in>{1..20}.
            (FACT_EXTRACTION_SYSTEM \<in> set (stages_run (\<lambda>messages system. py ''Name: Sasha'') [py ''Name: Sasha''] one_message n))
               = (n \<in> {3, 6, 9, 12, 15, 18})
          \<and> (SUMMARY_SYSTEM \<in> set (stages_run (\<lambda>messages system. py ''Name: Sasha'') [py ''Name: Sasha''] one_message n)) = (n \<in> {6, 12, 18})"
    by blast
  from bspec[OF this, of 3] bspec[OF this, of 4] bspec[OF this, of 18] bspec[OF this, of 20]
  show ?thesis by simp
qed


end
